theory Spec2Isabelle
  imports Complex_Main "HOL-Library.Word" "HOL-Library.Char_ord" "HOL-Library.List_Lexorder"
begin

section \<open>Scores: the type double\<close>

text \<open>
  The score values of \<^verbatim>\<open>proteotypicResult.hpp\<close> are C++ \<^verbatim>\<open>double\<close>s. The header does no
  arithmetic on them: a score is stored, copied and read back. A double is therefore
  represented by its IEEE 754 binary64 bit pattern, a 64-bit word, so that every double
  (both zeros, the infinities and every NaN) is a value of the type and copying a double
  is the identity. Equality of two scores below is equality of bit patterns.
\<close>

type_synonym double = "64 word"

definition sign_bit :: "double \<Rightarrow> bool" where
  "sign_bit d = (drop_bit 63 d = 1)"

definition exponent_bits :: "double \<Rightarrow> nat" where
  "exponent_bits d = unat (take_bit 11 (drop_bit 52 d))"

definition fraction_bits :: "double \<Rightarrow> nat" where
  "fraction_bits d = unat (take_bit 52 d)"

text \<open>
  The real number a bit pattern denotes (binary64: one sign bit, eleven exponent bits
  biased by 1023, fifty-two fraction bits); infinities and NaNs denote none.
\<close>

definition valof :: "double \<Rightarrow> real option" where
  "valof d =
     (if exponent_bits d = 2047 then None
      else Some ((if sign_bit d then - 1 else 1) *
        (if exponent_bits d = 0 then real (fraction_bits d) * 2 powi (- 1074)
         else real (2 ^ 52 + fraction_bits d) * 2 powi (int (exponent_bits d) - 1075))))"

text \<open>
  The literals \<^verbatim>\<open>0.5\<close>, \<^verbatim>\<open>0.75\<close>, \<^verbatim>\<open>0.87\<close> and \<^verbatim>\<open>0.91\<close> of the spec's scenarios, each
  rounded to the nearest double as a C++ compiler does.
\<close>

definition double_0_5 :: double where
  "double_0_5 = 0x3FE0000000000000"

definition double_0_75 :: double where
  "double_0_75 = 0x3FE8000000000000"

definition double_0_87 :: double where
  "double_0_87 = 0x3FEBD70A3D70A3D7"

definition double_0_91 :: double where
  "double_0_91 = 0x3FED1EB851EB851F"

section \<open>The container map<string,double>\<close>

text \<open>
  The header names the type \<^verbatim>\<open>map<string,double>\<close> of the field \<^verbatim>\<open>_results\<close> but neither
  includes nor declares \<^verbatim>\<open>map\<close>: the declaration comes from whatever the including file has
  in scope, and the statements that insert and read scores are in the callers. The
  container and its operations are therefore modelled from the spec, which describes an
  associative container with standard mapping semantics. That is the contract of the
  ordered map of the C++ standard library, and the model follows it where the spec is
  silent (the order of iteration).
\<close>

text \<open>
  Modelled from the spec: the container type that the header does not declare. Section 3:
  a mapping from a score-method name (text key, unique within one record, insertion order
  irrelevant) to a double. Its state is the sequence of its entries in iteration order:
  ascending in the key, by the lexicographic order of strings over unsigned characters,
  one entry for each key.
\<close>

type_synonym score_map = "(string \<times> double) list"

text \<open>
  Modelled from the spec: the default value of the container, which the header does not
  declare. Section 4.1: default construction produces an empty score set.
\<close>

definition map_empty :: score_map where
  "map_empty = []"

text \<open>
  Modelled from the spec: the size of the score set (section 8), of the container that
  the header does not declare: the number of entries (\<^verbatim>\<open>size()\<close>).
\<close>

definition map_size :: "score_map \<Rightarrow> nat" where
  "map_size m = length m"

text \<open>
  Modelled from the spec: the keys of the score set, of the container that the header
  does not declare, in iteration order.
\<close>

definition map_keys :: "score_map \<Rightarrow> string list" where
  "map_keys m = map fst m"

text \<open>
  Modelled from the spec: the number of entries under a key (section 8: exactly one
  entry under \<open>k\<close>), of the container that the header does not declare (\<^verbatim>\<open>count(k)\<close>).
\<close>

definition map_count :: "string \<Rightarrow> score_map \<Rightarrow> nat" where
  "map_count k m = length (filter (\<lambda>e. fst e = k) m)"

text \<open>
  Modelled from the spec: reading a score, which no function of the header does. Section
  4.1: given a score-method name, return the stored value if present; absence of the key
  is signalled by a not-found result or an empty optional. The result is the value of
  the entry under the key, or \<open>None\<close> (\<^verbatim>\<open>find(k)\<close>, which returns the entry or the
  past-the-end iterator). A read returns no container: it changes nothing.
\<close>

fun map_find :: "string \<Rightarrow> score_map \<Rightarrow> double option" where
  "map_find k [] = None"
| "map_find k ((k', v') # es) = (if k' = k then Some v' else map_find k es)"

text \<open>
  Modelled from the spec: inserting or updating a score, which no function of the header
  does. Section 4.1: given a score-method name and a numeric value, store the value under
  that name in the score set, overwriting any prior value for the same name; always
  succeeds (\<^verbatim>\<open>m[k] = v\<close>). The entries are passed in ascending order, comparing keys by \<open><\<close>
  only; an entry whose key is neither below nor above \<open>k\<close> has its value overwritten, and
  when there is none a new entry is put at the place the order gives it.
\<close>

fun map_assign :: "string \<Rightarrow> double \<Rightarrow> score_map \<Rightarrow> score_map" where
  "map_assign k v [] = [(k, v)]"
| "map_assign k v ((k', v') # es) =
     (if k' < k then (k', v') # map_assign k v es
      else if k < k' then (k, v) # (k', v') # es
      else (k', v) # es)"

text \<open>
  Modelled from the spec: the invariant of the container that the header does not
  declare. Section 3: keys in the score set are unique per record. The keys are strictly
  ascending, hence distinct.
\<close>

definition map_ordered :: "score_map \<Rightarrow> bool" where
  "map_ordered m = sorted_wrt (<) (map_keys m)"

section \<open>The struct ProteotypicResult\<close>

text \<open>
  \<^verbatim>\<open>struct ProteotypicResult { string _protein; string _peptide; map<string,double> _results; ... }\<close>
  The fields are written without the leading underscore of the source.
\<close>

record ProteotypicResult =
  protein :: string
  peptide :: string
  results :: score_map

text \<open>
  The constructor \<^verbatim>\<open>ProteotypicResult() : _protein(""), _peptide("") {}\<close>: the two strings are
  initialised from the empty literal, and \<^verbatim>\<open>_results\<close>, absent from the initialiser list,
  is default-constructed.
\<close>

definition ProteotypicResult :: ProteotypicResult where
  "ProteotypicResult = \<lparr> protein = '''', peptide = '''', results = map_empty \<rparr>"

text \<open>The assignments \<^verbatim>\<open>R._protein = s\<close> and \<^verbatim>\<open>R._peptide = s\<close> to the public fields.\<close>

definition set_protein :: "string \<Rightarrow> ProteotypicResult \<Rightarrow> ProteotypicResult" where
  "set_protein s R = R\<lparr>protein := s\<rparr>"

definition set_peptide :: "string \<Rightarrow> ProteotypicResult \<Rightarrow> ProteotypicResult" where
  "set_peptide s R = R\<lparr>peptide := s\<rparr>"

text \<open>
  Modelled from the spec: inserting or updating a score of a record (section 4.1), the
  caller's statement \<^verbatim>\<open>R._results[k] = v\<close>. Only the field \<^verbatim>\<open>_results\<close> is written.
\<close>

definition insert_score :: "string \<Rightarrow> double \<Rightarrow> ProteotypicResult \<Rightarrow> ProteotypicResult" where
  "insert_score k v R = R\<lparr>results := map_assign k v (results R)\<rparr>"

text \<open>
  Modelled from the spec: reading a score of a record (section 4.1), with the not-found
  result \<open>None\<close> for a key that is not in the score set.
\<close>

definition lookup_score :: "string \<Rightarrow> ProteotypicResult \<Rightarrow> double option" where
  "lookup_score k R = map_find k (results R)"

text \<open>A record is well formed when its score set satisfies the container's invariant.\<close>

definition well_formed :: "ProteotypicResult \<Rightarrow> bool" where
  "well_formed R = map_ordered (results R)"

section \<open>Objects and operations\<close>

text \<open>
  Several records live side by side: an object of type \<^verbatim>\<open>ProteotypicResult\<close> is named by a
  number, and the store gives each object its current value. The three fields are
  non-static members, so each object holds its own two strings and its own container.
\<close>

type_synonym object = nat

type_synonym objects = "object \<Rightarrow> ProteotypicResult"

text \<open>
  The operations a caller has on an object \<open>a\<close>: running the constructor on it; copying
  another object \<open>b\<close> into it (the implicit copy constructor and copy assignment, which
  copy member by member, and \<^verbatim>\<open>string\<close> and \<^verbatim>\<open>map\<close> copy their contents); the two field
  assignments; inserting or updating a score; reading a score.
\<close>

datatype operation =
    Construct object
  | Copy object object
  | SetProtein object string
  | SetPeptide object string
  | InsertScore object string double
  | LookupScore object string

text \<open>The object an operation works on.\<close>

fun target :: "operation \<Rightarrow> object" where
  "target (Construct a) = a"
| "target (Copy a b) = a"
| "target (SetProtein a s) = a"
| "target (SetPeptide a s) = a"
| "target (InsertScore a k v) = a"
| "target (LookupScore a k) = a"

fun is_lookup :: "operation \<Rightarrow> bool" where
  "is_lookup (LookupScore a k) = True"
| "is_lookup _ = False"

text \<open>
  What the caller gets back: nothing from a constructor, an assignment or an insertion;
  from a read the stored value, or the not-found signal.
\<close>

datatype outcome = Done | Found double | NotFound

inductive step :: "objects \<Rightarrow> operation \<Rightarrow> objects \<Rightarrow> outcome \<Rightarrow> bool" where
  step_construct: "step s (Construct a) (s(a := ProteotypicResult)) Done"
| step_copy: "step s (Copy a b) (s(a := s b)) Done"
| step_protein: "step s (SetProtein a p) (s(a := set_protein p (s a))) Done"
| step_peptide: "step s (SetPeptide a p) (s(a := set_peptide p (s a))) Done"
| step_insert: "step s (InsertScore a k v) (s(a := insert_score k v (s a))) Done"
| step_found: "lookup_score k (s a) = Some v \<Longrightarrow> step s (LookupScore a k) s (Found v)"
| step_missing: "lookup_score k (s a) = None \<Longrightarrow> step s (LookupScore a k) s NotFound"

text \<open>A sequence of operations, run in order, with the outcomes collected.\<close>

inductive steps :: "objects \<Rightarrow> operation list \<Rightarrow> objects \<Rightarrow> outcome list \<Rightarrow> bool" where
  steps_nil: "steps s [] s []"
| steps_cons: "step s x s' out \<Longrightarrow> steps s' xs s'' outs \<Longrightarrow> steps s (x # xs) s'' (out # outs)"

code_pred step .

code_pred steps .

text \<open>
  The same semantics as functions, for running a sequence of operations: the state and
  the outcome after one operation, and after a sequence.
\<close>

fun exec :: "operation \<Rightarrow> objects \<Rightarrow> objects \<times> outcome" where
  "exec (Construct a) s = (s(a := ProteotypicResult), Done)"
| "exec (Copy a b) s = (s(a := s b), Done)"
| "exec (SetProtein a p) s = (s(a := set_protein p (s a)), Done)"
| "exec (SetPeptide a p) s = (s(a := set_peptide p (s a)), Done)"
| "exec (InsertScore a k v) s = (s(a := insert_score k v (s a)), Done)"
| "exec (LookupScore a k) s =
     (case lookup_score k (s a) of None \<Rightarrow> (s, NotFound) | Some v \<Rightarrow> (s, Found v))"

fun run :: "operation list \<Rightarrow> objects \<Rightarrow> objects \<times> outcome list" where
  "run [] s = (s, [])"
| "run (x # xs) s =
     (case exec x s of (s', out) \<Rightarrow> (case run xs s' of (s'', outs) \<Rightarrow> (s'', out # outs)))"

text \<open>A sequence of operations that all work on the object \<open>a\<close>.\<close>

definition only_on :: "object \<Rightarrow> operation list \<Rightarrow> bool" where
  "only_on a xs = list_all (\<lambda>x. target x = a) xs"

text \<open>The state in which no object has been touched since its construction.\<close>

definition fresh_objects :: objects where
  "fresh_objects = (\<lambda>a. ProteotypicResult)"

text \<open>
  A state for the examples: object 1 has a protein identifier and one score, every other
  object is as constructed.
\<close>

definition example_objects :: objects where
  "example_objects =
     fresh_objects(1 := insert_score ''MethodA'' double_0_5 (set_protein ''P12345'' ProteotypicResult))"

section \<open>Properties of the literals\<close>

lemma valof_double_0_5: "valof double_0_5 = Some (1 / 2)"
  by (simp add: valof_def double_0_5_def exponent_bits_def fraction_bits_def sign_bit_def
      power_int_def power_one_over)

lemma valof_double_0_75: "valof double_0_75 = Some (3 / 4)"
  by (simp add: valof_def double_0_75_def exponent_bits_def fraction_bits_def sign_bit_def
      power_int_def power_one_over)

lemma valof_double_0_87:
  "valof double_0_87 = Some (7836263351624663 / 2 ^ 53) \<and>
   \<bar>7836263351624663 / 2 ^ 53 - (0.87 :: real)\<bar> \<le> 1 / 2 ^ 54"
  by (simp add: valof_def double_0_87_def exponent_bits_def fraction_bits_def sign_bit_def
      power_int_def power_one_over)

lemma valof_double_0_91:
  "valof double_0_91 = Some (8196551321814303 / 2 ^ 53) \<and>
   \<bar>8196551321814303 / 2 ^ 53 - (0.91 :: real)\<bar> \<le> 1 / 2 ^ 54"
  by (simp add: valof_def double_0_91_def exponent_bits_def fraction_bits_def sign_bit_def
      power_int_def power_one_over)

section \<open>Properties of the container\<close>

lemma map_keys_simps:
  "map_keys [] = []" "map_keys ((k, v) # es) = k # map_keys es"
  by (simp_all add: map_keys_def)

lemma map_size_simps:
  "map_size [] = 0" "map_size (e # es) = Suc (map_size es)"
  by (simp_all add: map_size_def)

lemma map_ordered_simps:
  "map_ordered []"
  "map_ordered ((k, v) # es) \<longleftrightarrow> (\<forall>k' \<in> set (map_keys es). k < k') \<and> map_ordered es"
  by (simp_all add: map_ordered_def map_keys_def)

lemma map_keys_entry: "(k, v) \<in> set m \<Longrightarrow> k \<in> set (map_keys m)"
  by (induction m) (auto simp: map_keys_simps)

lemma map_keys_assign: "set (map_keys (map_assign k v m)) = insert k (set (map_keys m))"
  by (induction m) (auto simp: map_keys_simps split: if_splits)

lemma map_ordered_assign: "map_ordered m \<Longrightarrow> map_ordered (map_assign k v m)"
proof (induction m)
  case Nil
  show ?case by (simp add: map_ordered_simps map_keys_simps)
next
  case (Cons e es)
  obtain k' v' where e: "e = (k', v')" by (cases e)
  from Cons.prems have below: "\<forall>x \<in> set (map_keys es). k' < x" and tl: "map_ordered es"
    by (simp_all add: e map_ordered_simps)
  consider (right) "k' < k" | (left) "k < k'" | (same) "k = k'"
    by (rule linorder_cases [of k' k]) auto
  then show ?case
  proof cases
    case right
    with below tl Cons.IH show ?thesis
      by (simp add: e map_ordered_simps map_keys_assign)
  next
    case left
    have "\<forall>x \<in> set (map_keys es). k < x"
    proof
      fix x assume "x \<in> set (map_keys es)"
      with below have "k' < x" by simp
      with left show "k < x" by (rule less_trans)
    qed
    moreover from left have "\<not> k' < k" by simp
    ultimately show ?thesis using left below tl
      by (simp add: e map_ordered_simps map_keys_simps)
  next
    case same
    with below tl show ?thesis
      by (simp add: e map_ordered_simps)
  qed
qed

lemma map_assign_twice: "map_assign k v2 (map_assign k v1 m) = map_assign k v2 m"
  by (induction m) auto

lemma map_assign_commute:
  "k1 \<noteq> k2 \<Longrightarrow> map_assign k1 v1 (map_assign k2 v2 m) = map_assign k2 v2 (map_assign k1 v1 m)"
  by (induction m) auto

lemma map_find_None: "map_find k m = None \<longleftrightarrow> k \<notin> set (map_keys m)"
  by (induction m) (auto simp: map_keys_simps split: if_splits)

lemma map_find_entry: "map_ordered m \<Longrightarrow> (k, v) \<in> set m \<Longrightarrow> map_find k m = Some v"
proof (induction m)
  case Nil
  then show ?case by simp
next
  case (Cons e es)
  obtain k' v' where e: "e = (k', v')" by (cases e)
  from Cons.prems have below: "\<forall>x \<in> set (map_keys es). k' < x" and tl: "map_ordered es"
    by (simp_all add: e map_ordered_simps)
  show ?case
  proof (cases "k' = k")
    case True
    have "(k, v) \<notin> set es"
    proof
      assume "(k, v) \<in> set es"
      then have "k \<in> set (map_keys es)" by (rule map_keys_entry)
      with below True show False by auto
    qed
    with Cons.prems True show ?thesis by (simp add: e)
  next
    case False
    with Cons.prems have "(k, v) \<in> set es" by (simp add: e)
    with tl Cons.IH False show ?thesis by (simp add: e)
  qed
qed

lemma map_find_Some_entry: "map_find k m = Some v \<Longrightarrow> (k, v) \<in> set m"
  by (induction m) (auto split: if_splits)

lemma map_filter_absent:
  "k \<notin> set (map_keys m) \<Longrightarrow> filter (\<lambda>e. fst e = k) m = []"
  by (induction m) (auto simp: map_keys_simps)

lemma map_entries_assign:
  "map_ordered m \<Longrightarrow> filter (\<lambda>e. fst e = k) (map_assign k v m) = [(k, v)]"
proof (induction m)
  case Nil
  show ?case by simp
next
  case (Cons e es)
  obtain k' v' where e: "e = (k', v')" by (cases e)
  from Cons.prems have below: "\<forall>x \<in> set (map_keys es). k' < x" and tl: "map_ordered es"
    by (simp_all add: e map_ordered_simps)
  have absent: "\<not> k' < k \<Longrightarrow> filter (\<lambda>e. fst e = k) es = []"
  proof (rule map_filter_absent)
    assume "\<not> k' < k"
    with below show "k \<notin> set (map_keys es)" by auto
  qed
  from Cons.IH tl absent show ?case
    by (auto simp: e)
qed

lemma map_size_assign:
  "map_ordered m \<Longrightarrow> map_size (map_assign k v m) =
     (if k \<in> set (map_keys m) then map_size m else Suc (map_size m))"
  by (induction m) (auto simp: map_size_simps map_keys_simps map_ordered_simps)

lemma map_find_assign_same: "map_find k (map_assign k v m) = Some v"
  by (induction m) auto

lemma map_find_assign_other: "k' \<noteq> k \<Longrightarrow> map_find k' (map_assign k v m) = map_find k' m"
  by (induction m) auto

lemma map_ordered_distinct: "map_ordered m \<Longrightarrow> distinct (map_keys m)"
  by (simp add: map_ordered_def strict_sorted_iff)

lemma map_size_card: "map_ordered m \<Longrightarrow> map_size m = card (set (map_keys m))"
proof -
  assume "map_ordered m"
  then have "distinct (map_keys m)" by (rule map_ordered_distinct)
  then have "card (set (map_keys m)) = length (map_keys m)" by (rule distinct_card)
  then show ?thesis by (simp add: map_size_def map_keys_def)
qed

section \<open>Properties of the operations\<close>

inductive_cases step_ConstructE: "step s (Construct a) s' out"
inductive_cases step_CopyE: "step s (Copy a b) s' out"
inductive_cases step_SetProteinE: "step s (SetProtein a p) s' out"
inductive_cases step_SetPeptideE: "step s (SetPeptide a p) s' out"
inductive_cases step_InsertScoreE: "step s (InsertScore a k v) s' out"
inductive_cases step_LookupScoreE: "step s (LookupScore a k) s' out"
inductive_cases steps_NilE: "steps s [] s' outs"
inductive_cases steps_ConsE: "steps s (x # xs) s' outs"

lemma well_formed_ProteotypicResult: "well_formed ProteotypicResult"
  by (simp add: well_formed_def ProteotypicResult_def map_empty_def map_ordered_simps)

lemma well_formed_set_protein: "well_formed (set_protein p R) = well_formed R"
  by (simp add: well_formed_def set_protein_def)

lemma well_formed_set_peptide: "well_formed (set_peptide p R) = well_formed R"
  by (simp add: well_formed_def set_peptide_def)

lemma well_formed_insert_score: "well_formed R \<Longrightarrow> well_formed (insert_score k v R)"
  by (simp add: well_formed_def insert_score_def map_ordered_assign)

lemma step_exec: "step s x s' out \<longleftrightarrow> exec x s = (s', out)"
proof
  assume "step s x s' out"
  then show "exec x s = (s', out)" by (cases rule: step.cases) simp_all
next
  assume "exec x s = (s', out)"
  then show "step s x s' out"
    by (cases x) (auto intro: step.intros split: option.splits)
qed

lemma steps_run: "steps s xs s' outs \<longleftrightarrow> run xs s = (s', outs)"
proof
  assume "steps s xs s' outs"
  then show "run xs s = (s', outs)"
    by (induction rule: steps.induct) (simp_all add: step_exec)
next
  assume "run xs s = (s', outs)"
  then show "steps s xs s' outs"
  proof (induction xs arbitrary: s s' outs)
    case Nil
    then show ?case by (auto intro: steps_nil)
  next
    case (Cons x xs)
    obtain s1 out where x: "exec x s = (s1, out)" by (cases "exec x s")
    obtain s2 outs2 where xs: "run xs s1 = (s2, outs2)" by (cases "run xs s1")
    from Cons.prems x xs have "s' = s2" "outs = out # outs2" by simp_all
    moreover from x have "step s x s1 out" by (simp add: step_exec)
    moreover from xs have "steps s1 xs s2 outs2" by (rule Cons.IH)
    ultimately show ?case by (auto intro: steps_cons)
  qed
qed

lemma step_frame: "step s x s' out \<Longrightarrow> b \<noteq> target x \<Longrightarrow> s' b = s b"
  by (induction rule: step.induct) simp_all

lemma steps_frame:
  "steps s xs s' outs \<Longrightarrow> \<forall>x \<in> set xs. target x \<noteq> b \<Longrightarrow> s' b = s b"
proof (induction rule: steps.induct)
  case (steps_nil s)
  show ?case by simp
next
  case (steps_cons s x s' out xs s'' outs)
  from steps_cons.prems have "b \<noteq> target x" by auto
  with steps_cons.hyps(1) have "s' b = s b" by (rule step_frame)
  moreover from steps_cons.prems have "s'' b = s' b" by (intro steps_cons.IH) simp
  ultimately show ?case by simp
qed

lemma step_deterministic:
  "step s x s1 out1 \<Longrightarrow> step s x s2 out2 \<Longrightarrow> s1 = s2 \<and> out1 = out2"
  by (induction rule: step.induct)
    (auto elim: step_ConstructE step_CopyE step_SetProteinE step_SetPeptideE
       step_InsertScoreE step_LookupScoreE)

lemma step_total: "\<exists>s' out. step s x s' out"
proof (cases x)
  case (LookupScore a k)
  then show ?thesis
    by (cases "lookup_score k (s a)") (blast intro: step.intros)+
qed (blast intro: step.intros)+

lemma steps_deterministic:
  "steps s xs s1 outs1 \<Longrightarrow> steps s xs s2 outs2 \<Longrightarrow> s1 = s2 \<and> outs1 = outs2"
proof (induction arbitrary: s2 outs2 rule: steps.induct)
  case (steps_nil s)
  then show ?case by (auto elim: steps_NilE)
next
  case (steps_cons s x s' out xs s'' outs)
  from steps_cons.prems obtain t o' os where
    a: "step s x t o'" and b: "steps t xs s2 os" and c: "outs2 = o' # os"
    by (auto elim: steps_ConsE)
  from steps_cons.hyps(1) a have "s' = t" "out = o'" using step_deterministic by blast+
  with b steps_cons.IH c show ?case by blast
qed

lemma steps_total: "\<exists>s' outs. steps s xs s' outs"
proof (induction xs arbitrary: s)
  case Nil
  show ?case by (blast intro: steps_nil)
next
  case (Cons x xs)
  obtain s1 out where "step s x s1 out" using step_total by blast
  moreover obtain s2 outs where "steps s1 xs s2 outs" using Cons.IH by blast
  ultimately show ?case by (blast intro: steps_cons)
qed

lemma step_well_formed:
  "step s x s' out \<Longrightarrow> \<forall>a. well_formed (s a) \<Longrightarrow> well_formed (s' b)"
  by (induction rule: step.induct)
    (simp_all add: well_formed_ProteotypicResult well_formed_set_protein
       well_formed_set_peptide well_formed_insert_score)

lemma steps_well_formed:
  "steps s xs s' outs \<Longrightarrow> \<forall>a. well_formed (s a) \<Longrightarrow> well_formed (s' b)"
proof (induction arbitrary: b rule: steps.induct)
  case (steps_nil s)
  then show ?case by simp
next
  case (steps_cons s x s' out xs s'' outs)
  from steps_cons.hyps(1) steps_cons.prems have "\<forall>a. well_formed (s' a)"
    by (blast intro: step_well_formed)
  then show ?case by (rule steps_cons.IH)
qed

lemma fresh_objects_well_formed: "well_formed (fresh_objects a)"
  by (simp add: fresh_objects_def well_formed_ProteotypicResult)

lemma reachable_well_formed: "steps fresh_objects xs s' outs \<Longrightarrow> well_formed (s' b)"
proof -
  assume "steps fresh_objects xs s' outs"
  moreover have "\<forall>a. well_formed (fresh_objects a)"
    by (simp add: fresh_objects_well_formed)
  ultimately show ?thesis by (rule steps_well_formed)
qed

lemma steps_frame_only_on:
  assumes "steps s xs s' outs" and "only_on a xs" and "b \<noteq> a"
  shows "s' b = s b"
proof -
  from assms(2,3) have "\<forall>x \<in> set xs. target x \<noteq> b"
    by (auto simp: only_on_def list_all_iff)
  with assms(1) show ?thesis by (rule steps_frame)
qed

lemma lookup_score_None_iff: "lookup_score k R = None \<longleftrightarrow> k \<notin> set (map_keys (results R))"
  by (simp add: lookup_score_def map_find_None)

lemma lookup_score_Some_iff:
  "well_formed R \<Longrightarrow> lookup_score k R = Some v \<longleftrightarrow> (k, v) \<in> set (results R)"
  unfolding lookup_score_def well_formed_def
  by (blast intro: map_find_entry map_find_Some_entry)

section \<open>The claims of the specification\<close>

text \<open>
  Claim C1. A freshly default-constructed record has the empty string as protein
  identifier and as peptide sequence, and an empty score set: no entry, size 0, and no
  key is found in it.
\<close>

theorem default_constructed_record:
  "protein ProteotypicResult = '''' \<and> peptide ProteotypicResult = '''' \<and>
   results ProteotypicResult = map_empty \<and> map_size (results ProteotypicResult) = 0 \<and>
   map_keys (results ProteotypicResult) = [] \<and> lookup_score k ProteotypicResult = None"
  by (simp add: ProteotypicResult_def map_empty_def map_size_def map_keys_def lookup_score_def)

text \<open>
  Claim C2. For every record, key \<open>k\<close> and values \<open>v1\<close>, \<open>v2\<close>: after inserting \<open>v1\<close> under \<open>k\<close>
  and then \<open>v2\<close> under \<open>k\<close> the score set has exactly one entry under \<open>k\<close>, its value is
  \<open>v2\<close>, and the record is the one that inserting \<open>v2\<close> alone gives (nothing of \<open>v1\<close> is
  kept or accumulated). The hypothesis is the invariant of the container, which every
  record built by the operations satisfies (\<open>reachable_well_formed\<close>).
\<close>

theorem insert_twice_last_wins:
  assumes "well_formed R"
  shows "filter (\<lambda>e. fst e = k) (results (insert_score k v2 (insert_score k v1 R))) = [(k, v2)] \<and>
         map_count k (results (insert_score k v2 (insert_score k v1 R))) = 1 \<and>
         lookup_score k (insert_score k v2 (insert_score k v1 R)) = Some v2 \<and>
         insert_score k v2 (insert_score k v1 R) = insert_score k v2 R"
proof -
  from assms have ord: "map_ordered (results R)" by (simp add: well_formed_def)
  have same: "insert_score k v2 (insert_score k v1 R) = insert_score k v2 R"
    by (simp add: insert_score_def map_assign_twice)
  from ord have one: "filter (\<lambda>e. fst e = k) (results (insert_score k v2 R)) = [(k, v2)]"
    by (simp add: insert_score_def map_entries_assign)
  have look: "lookup_score k (insert_score k v2 R) = Some v2"
    by (simp add: lookup_score_def insert_score_def map_find_assign_same)
  from same one look show ?thesis by (simp add: map_count_def)
qed

text \<open>Scenario B of the spec: \<^verbatim>\<open>"MethodA"\<close> set to 0.5 and then to 0.75 on a fresh record.\<close>

theorem insert_twice_last_wins_witness:
  "well_formed ProteotypicResult \<and>
   results (insert_score ''MethodA'' double_0_75 (insert_score ''MethodA'' double_0_5 ProteotypicResult))
     = [(''MethodA'', double_0_75)] \<and>
   map_count ''MethodA''
     (results (insert_score ''MethodA'' double_0_75 (insert_score ''MethodA'' double_0_5 ProteotypicResult))) = 1 \<and>
   lookup_score ''MethodA''
     (insert_score ''MethodA'' double_0_75 (insert_score ''MethodA'' double_0_5 ProteotypicResult))
     = Some double_0_75"
proof -
  have h: "well_formed ProteotypicResult"
    by (simp add: well_formed_def map_ordered_def map_keys_def ProteotypicResult_def map_empty_def)
  have r: "results (insert_score ''MethodA'' double_0_75
      (insert_score ''MethodA'' double_0_5 ProteotypicResult)) = [(''MethodA'', double_0_75)]"
    by (simp add: insert_score_def ProteotypicResult_def map_empty_def)
  from insert_twice_last_wins [OF h, of "''MethodA''" double_0_75 double_0_5] h r
  show ?thesis by blast
qed

text \<open>
  Claim C3. Looking a key up in a record gives the not-found signal exactly when the key
  is not in the record's score set, and gives a value exactly when that value is stored
  under the key: the read never makes a value up. It leaves every record as it was, so
  it adds no entry either. The record is one whose score set satisfies the invariant of
  the container.
\<close>

theorem lookup_result:
  assumes "well_formed (s a)" and "step s (LookupScore a k) s' out"
  shows "s' = s \<and>
         (out = NotFound \<longleftrightarrow> k \<notin> set (map_keys (results (s a)))) \<and>
         (out = Found v \<longleftrightarrow> (k, v) \<in> set (results (s a))) \<and>
         (lookup_score k (s a) = None \<longleftrightarrow> k \<notin> set (map_keys (results (s a)))) \<and>
         (lookup_score k (s a) = Some v \<longleftrightarrow> (k, v) \<in> set (results (s a)))"
proof -
  note none = lookup_score_None_iff [of k "s a"]
  note some = lookup_score_Some_iff [OF assms(1), of k]
  from assms(2) consider
      (found) w where "lookup_score k (s a) = Some w" "s' = s" "out = Found w"
    | (missing) "lookup_score k (s a) = None" "s' = s" "out = NotFound"
    by (auto elim: step_LookupScoreE)
  then show ?thesis
  proof cases
    case found
    then show ?thesis using none some [of v] some [of w] by auto
  next
    case missing
    then show ?thesis using none some [of v] by auto
  qed
qed

text \<open>Scenario C of the spec: the key \<^verbatim>\<open>"Unscored"\<close> is not found; a stored key is.\<close>

theorem lookup_result_witness:
  "well_formed (example_objects 1) \<and>
   step example_objects (LookupScore 1 ''Unscored'') example_objects NotFound \<and>
   ''Unscored'' \<notin> set (map_keys (results (example_objects 1))) \<and>
   lookup_score ''Unscored'' (example_objects 1) = None \<and>
   step example_objects (LookupScore 1 ''MethodA'') example_objects (Found double_0_5) \<and>
   (''MethodA'', double_0_5) \<in> set (results (example_objects 1)) \<and>
   lookup_score ''MethodA'' (example_objects 1) = Some double_0_5"
proof -
  have r: "results (example_objects 1) = [(''MethodA'', double_0_5)]"
    by (simp add: example_objects_def insert_score_def set_protein_def ProteotypicResult_def
        map_empty_def)
  have h: "well_formed (example_objects 1)"
    unfolding well_formed_def map_ordered_def map_keys_def r by simp
  have m: "step example_objects (LookupScore 1 ''Unscored'') example_objects NotFound"
    by (rule step_missing) (simp only: lookup_score_def r map_find.simps, simp)
  have f: "step example_objects (LookupScore 1 ''MethodA'') example_objects (Found double_0_5)"
    by (rule step_found) (simp only: lookup_score_def r map_find.simps, simp)
  from lookup_result [OF h m, of double_0_5] lookup_result [OF h f, of double_0_5] h m f
  show ?thesis by simp
qed

text \<open>
  Claim C4, as the spec states it, for every record: two insertions under distinct keys
  give a score set of size 2. That fails on a record that already holds a score under a
  third key: the container keeps it, and the size is 3.
\<close>

theorem size_two_counterexample:
  "well_formed (insert_score ''MethodA'' double_0_5 ProteotypicResult) \<and>
   ''SVMClassifier'' \<noteq> ''RandomForest'' \<and>
   map_size (results (insert_score ''RandomForest'' double_0_91
     (insert_score ''SVMClassifier'' double_0_87
       (insert_score ''MethodA'' double_0_5 ProteotypicResult)))) = 3 \<and>
   map_size (results (insert_score ''RandomForest'' double_0_91
     (insert_score ''SVMClassifier'' double_0_87
       (insert_score ''MethodA'' double_0_5 ProteotypicResult)))) \<noteq> 2"
  by (simp add: well_formed_def map_ordered_def map_keys_def map_size_def insert_score_def
      ProteotypicResult_def map_empty_def)

text \<open>
  Claim C4, amended. For every record and distinct keys \<open>k1\<close>, \<open>k2\<close>: after inserting \<open>v1\<close>
  under \<open>k1\<close> and \<open>v2\<close> under \<open>k2\<close>, looking up \<open>k1\<close> gives \<open>v1\<close> and looking up \<open>k2\<close> gives
  \<open>v2\<close>; the record is the same whichever insertion comes first; the size of the score
  set is the number of keys among \<open>k1\<close>, \<open>k2\<close> and those the record held before, which is 2
  when the record held no key other than \<open>k1\<close> and \<open>k2\<close>, as a fresh record does. The
  record is one whose score set satisfies the invariant of the container.
\<close>

theorem insert_two_distinct_keys:
  assumes "well_formed R" and "k1 \<noteq> k2"
  shows "lookup_score k1 (insert_score k2 v2 (insert_score k1 v1 R)) = Some v1 \<and>
         lookup_score k2 (insert_score k2 v2 (insert_score k1 v1 R)) = Some v2 \<and>
         insert_score k2 v2 (insert_score k1 v1 R) = insert_score k1 v1 (insert_score k2 v2 R) \<and>
         map_size (results (insert_score k2 v2 (insert_score k1 v1 R)))
           = card (insert k1 (insert k2 (set (map_keys (results R))))) \<and>
         (set (map_keys (results R)) \<subseteq> {k1, k2} \<longrightarrow>
            map_size (results (insert_score k2 v2 (insert_score k1 v1 R))) = 2)"
proof -
  let ?m = "map_assign k2 v2 (map_assign k1 v1 (results R))"
  from assms(1) have ord: "map_ordered (results R)" by (simp add: well_formed_def)
  then have ord2: "map_ordered ?m" by (intro map_ordered_assign)
  from assms(2) have l1: "map_find k1 ?m = Some v1"
    by (simp add: map_find_assign_other map_find_assign_same)
  have l2: "map_find k2 ?m = Some v2" by (rule map_find_assign_same)
  from assms(2) have comm: "?m = map_assign k1 v1 (map_assign k2 v2 (results R))"
    by (simp add: map_assign_commute)
  have keys: "set (map_keys ?m) = insert k1 (insert k2 (set (map_keys (results R))))"
    by (auto simp: map_keys_assign)
  from ord2 have size: "map_size ?m = card (insert k1 (insert k2 (set (map_keys (results R)))))"
    by (simp add: map_size_card keys)
  have two: "map_size ?m = 2" if "set (map_keys (results R)) \<subseteq> {k1, k2}"
  proof -
    from that have "insert k1 (insert k2 (set (map_keys (results R)))) = {k1, k2}" by auto
    with size assms(2) show ?thesis by simp
  qed
  from l1 l2 comm size two show ?thesis
    by (simp add: lookup_score_def insert_score_def)
qed

theorem insert_two_distinct_keys_witness:
  "well_formed ProteotypicResult \<and> ''SVMClassifier'' \<noteq> ''RandomForest'' \<and>
   set (map_keys (results ProteotypicResult)) \<subseteq> {''SVMClassifier'', ''RandomForest''} \<and>
   lookup_score ''SVMClassifier''
     (insert_score ''RandomForest'' double_0_91 (insert_score ''SVMClassifier'' double_0_87 ProteotypicResult))
     = Some double_0_87 \<and>
   lookup_score ''RandomForest''
     (insert_score ''RandomForest'' double_0_91 (insert_score ''SVMClassifier'' double_0_87 ProteotypicResult))
     = Some double_0_91 \<and>
   insert_score ''RandomForest'' double_0_91 (insert_score ''SVMClassifier'' double_0_87 ProteotypicResult)
     = insert_score ''SVMClassifier'' double_0_87 (insert_score ''RandomForest'' double_0_91 ProteotypicResult) \<and>
   map_size (results
     (insert_score ''RandomForest'' double_0_91 (insert_score ''SVMClassifier'' double_0_87 ProteotypicResult)))
     = 2"
proof -
  have h: "well_formed ProteotypicResult"
    by (simp add: well_formed_def map_ordered_def map_keys_def ProteotypicResult_def map_empty_def)
  have d: "''SVMClassifier'' \<noteq> ''RandomForest''" by simp
  have e: "set (map_keys (results ProteotypicResult)) \<subseteq> {''SVMClassifier'', ''RandomForest''}"
    by (simp add: map_keys_def ProteotypicResult_def map_empty_def)
  from insert_two_distinct_keys [OF h d, of double_0_91 double_0_87] h d e
  show ?thesis by blast
qed

text \<open>
  Claim C5. Assigning the protein identifier or the peptide sequence leaves the score
  set as it was, and inserting or updating a score leaves the protein identifier and
  the peptide sequence as they were.
\<close>

theorem field_independence:
  "results (set_protein s R) = results R \<and> results (set_peptide s R) = results R \<and>
   protein (insert_score k v R) = protein R \<and> peptide (insert_score k v R) = peptide R"
  by (simp add: set_protein_def set_peptide_def insert_score_def)

text \<open>
  Claim C6. For two distinct records \<open>a\<close> and \<open>b\<close>, no operation on \<open>a\<close>, and no sequence of
  them (construction, copying into \<open>a\<close>, field assignment, score insertion, lookup), changes
  the protein identifier, the peptide sequence or the score set of \<open>b\<close>: each record has
  its own score set.
\<close>

theorem other_record_unchanged:
  assumes "steps s xs s' outs" and "only_on a xs" and "b \<noteq> a"
  shows "protein (s' b) = protein (s b) \<and> peptide (s' b) = peptide (s b) \<and>
         results (s' b) = results (s b)"
proof -
  from assms have "s' b = s b" by (rule steps_frame_only_on)
  then show ?thesis by simp
qed

theorem other_record_unchanged_witness:
  "steps example_objects
     [SetProtein 0 ''Q99999'', SetPeptide 0 ''ACDEFGHIK'', InsertScore 0 ''MethodA'' double_0_75,
      Construct 0, InsertScore 0 ''RandomForest'' double_0_91]
     (fst (run [SetProtein 0 ''Q99999'', SetPeptide 0 ''ACDEFGHIK'',
        InsertScore 0 ''MethodA'' double_0_75, Construct 0,
        InsertScore 0 ''RandomForest'' double_0_91] example_objects))
     [Done, Done, Done, Done, Done] \<and>
   only_on 0 [SetProtein 0 ''Q99999'', SetPeptide 0 ''ACDEFGHIK'',
     InsertScore 0 ''MethodA'' double_0_75, Construct 0,
     InsertScore 0 ''RandomForest'' double_0_91] \<and>
   (1 :: object) \<noteq> 0 \<and>
   protein (fst (run [SetProtein 0 ''Q99999'', SetPeptide 0 ''ACDEFGHIK'',
        InsertScore 0 ''MethodA'' double_0_75, Construct 0,
        InsertScore 0 ''RandomForest'' double_0_91] example_objects) 1) = ''P12345'' \<and>
   peptide (fst (run [SetProtein 0 ''Q99999'', SetPeptide 0 ''ACDEFGHIK'',
        InsertScore 0 ''MethodA'' double_0_75, Construct 0,
        InsertScore 0 ''RandomForest'' double_0_91] example_objects) 1) = [] \<and>
   results (fst (run [SetProtein 0 ''Q99999'', SetPeptide 0 ''ACDEFGHIK'',
        InsertScore 0 ''MethodA'' double_0_75, Construct 0,
        InsertScore 0 ''RandomForest'' double_0_91] example_objects) 1)
     = [(''MethodA'', double_0_5)]"
proof -
  let ?xs = "[SetProtein 0 ''Q99999'', SetPeptide 0 ''ACDEFGHIK'',
    InsertScore 0 ''MethodA'' double_0_75, Construct 0,
    InsertScore 0 ''RandomForest'' double_0_91]"
  have r: "steps example_objects ?xs (fst (run ?xs example_objects)) [Done, Done, Done, Done, Done]"
    by (simp add: steps_run)
  have o: "only_on 0 ?xs" by (simp add: only_on_def)
  have d: "(1 :: object) \<noteq> 0" by simp
  have b: "protein (example_objects 1) = ''P12345'' \<and> peptide (example_objects 1) = [] \<and>
      results (example_objects 1) = [(''MethodA'', double_0_5)]"
    by (simp add: example_objects_def insert_score_def set_protein_def ProteotypicResult_def
        map_empty_def)
  from other_record_unchanged [OF r o d] r o d b show ?thesis by simp
qed

text \<open>
  Claim C7. Construction, assignment of the protein identifier or the peptide sequence
  (any string, the empty one too) and insertion of a score (any key) always succeed: in
  every state each of them has a successor state with the outcome \<open>Done\<close>, and no other
  outcome. Only a lookup can report \<open>NotFound\<close>. Memory is unbounded in this model, as in
  the spec, which leaves the exhaustion of memory out.
\<close>

theorem mutations_always_succeed:
  assumes "\<not> is_lookup x"
  shows "(\<exists>s'. step s x s' Done) \<and> (\<forall>s' out. step s x s' out \<longrightarrow> out = Done)"
proof
  from assms show "\<exists>s'. step s x s' Done"
    by (cases x) (auto intro: step.intros)
next
  show "\<forall>s' out. step s x s' out \<longrightarrow> out = Done"
  proof (intro allI impI)
    fix s' out
    assume "step s x s' out"
    then show "out = Done" using assms by (cases rule: step.cases) simp_all
  qed
qed

theorem mutations_always_succeed_witness:
  "\<not> is_lookup (SetProtein 0 '''') \<and>
   (\<exists>s'. step fresh_objects (SetProtein 0 '''') s' Done) \<and>
   \<not> step fresh_objects (SetProtein 0 '''') fresh_objects NotFound \<and>
   \<not> is_lookup (InsertScore 0 '''' double_0_5) \<and>
   (\<exists>s'. step fresh_objects (InsertScore 0 '''' double_0_5) s' Done) \<and>
   \<not> step fresh_objects (InsertScore 0 '''' double_0_5) fresh_objects NotFound"
proof -
  have p: "\<not> is_lookup (SetProtein 0 '''')" by simp
  have i: "\<not> is_lookup (InsertScore 0 '''' double_0_5)" by simp
  from mutations_always_succeed [OF p, of fresh_objects]
    mutations_always_succeed [OF i, of fresh_objects] p i
  show ?thesis by (auto simp del: is_lookup.simps)
qed

text \<open>
  Claim C8 (Scenario A). On a default-constructed record, setting the protein to
  \<^verbatim>\<open>"P12345"\<close> and the peptide to \<^verbatim>\<open>"ACDEFGHIK"\<close>, then inserting \<^verbatim>\<open>"SVMClassifier"\<close> = 0.87
  and \<^verbatim>\<open>"RandomForest"\<close> = 0.91, gives a record with that protein, that peptide, and a score
  set of exactly these two entries (iterated in key order, \<^verbatim>\<open>"RandomForest"\<close> first).
\<close>

theorem scenario_A:
  "protein (insert_score ''RandomForest'' double_0_91 (insert_score ''SVMClassifier'' double_0_87
      (set_peptide ''ACDEFGHIK'' (set_protein ''P12345'' ProteotypicResult)))) = ''P12345'' \<and>
   peptide (insert_score ''RandomForest'' double_0_91 (insert_score ''SVMClassifier'' double_0_87
      (set_peptide ''ACDEFGHIK'' (set_protein ''P12345'' ProteotypicResult)))) = ''ACDEFGHIK'' \<and>
   set (results (insert_score ''RandomForest'' double_0_91 (insert_score ''SVMClassifier'' double_0_87
      (set_peptide ''ACDEFGHIK'' (set_protein ''P12345'' ProteotypicResult)))))
     = {(''SVMClassifier'', double_0_87), (''RandomForest'', double_0_91)} \<and>
   map_size (results (insert_score ''RandomForest'' double_0_91 (insert_score ''SVMClassifier'' double_0_87
      (set_peptide ''ACDEFGHIK'' (set_protein ''P12345'' ProteotypicResult))))) = 2 \<and>
   results (insert_score ''RandomForest'' double_0_91 (insert_score ''SVMClassifier'' double_0_87
      (set_peptide ''ACDEFGHIK'' (set_protein ''P12345'' ProteotypicResult))))
     = [(''RandomForest'', double_0_91), (''SVMClassifier'', double_0_87)]"
  by (auto simp: insert_score_def set_peptide_def set_protein_def ProteotypicResult_def
      map_empty_def map_size_def)

text \<open>
  Claim C9. Copying a record \<open>a\<close> into a distinct record \<open>c\<close> gives \<open>c\<close> the protein
  identifier, peptide sequence and score set of \<open>a\<close> and leaves \<open>a\<close> as it was; whatever is
  then done to the copy leaves the original unchanged, and whatever is then done to the
  original leaves the copy with the values it was given.
\<close>

theorem copy_is_independent:
  assumes "step s (Copy c a) s1 out" and "c \<noteq> a" and "steps s1 xs s2 outs"
  shows "protein (s1 c) = protein (s a) \<and> peptide (s1 c) = peptide (s a) \<and>
         results (s1 c) = results (s a) \<and> s1 a = s a \<and>
         (only_on c xs \<longrightarrow> s2 a = s a) \<and> (only_on a xs \<longrightarrow> s2 c = s a)"
proof -
  from assms(1) have s1: "s1 = s(c := s a)" by (auto elim: step_CopyE)
  with assms(2) have orig: "s1 a = s a" and copy: "s1 c = s a" by simp_all
  have "s2 a = s a" if "only_on c xs"
  proof -
    from assms(2) have "a \<noteq> c" by simp
    with assms(3) that have "s2 a = s1 a" by (rule steps_frame_only_on)
    with orig show ?thesis by simp
  qed
  moreover have "s2 c = s a" if "only_on a xs"
  proof -
    from assms(3) that assms(2) have "s2 c = s1 c" by (rule steps_frame_only_on)
    with copy show ?thesis by simp
  qed
  ultimately show ?thesis using orig copy by simp
qed

theorem copy_is_independent_witness:
  "step example_objects (Copy 2 1) (example_objects(2 := example_objects 1)) Done \<and>
   (2 :: object) \<noteq> 1 \<and>
   protein (example_objects 1) = ''P12345'' \<and>
   results (example_objects 1) = [(''MethodA'', double_0_5)] \<and>
   protein ((example_objects(2 := example_objects 1)) 2) = ''P12345'' \<and>
   results ((example_objects(2 := example_objects 1)) 2) = [(''MethodA'', double_0_5)] \<and>
   steps (example_objects(2 := example_objects 1))
     [SetProtein 2 ''Q99999'', InsertScore 2 ''MethodA'' double_0_75]
     (fst (run [SetProtein 2 ''Q99999'', InsertScore 2 ''MethodA'' double_0_75]
        (example_objects(2 := example_objects 1))))
     [Done, Done] \<and>
   only_on 2 [SetProtein 2 ''Q99999'', InsertScore 2 ''MethodA'' double_0_75] \<and>
   fst (run [SetProtein 2 ''Q99999'', InsertScore 2 ''MethodA'' double_0_75]
        (example_objects(2 := example_objects 1))) 1 = example_objects 1 \<and>
   steps (example_objects(2 := example_objects 1))
     [SetPeptide 1 ''ACDEFGHIK'', InsertScore 1 ''RandomForest'' double_0_91]
     (fst (run [SetPeptide 1 ''ACDEFGHIK'', InsertScore 1 ''RandomForest'' double_0_91]
        (example_objects(2 := example_objects 1))))
     [Done, Done] \<and>
   only_on 1 [SetPeptide 1 ''ACDEFGHIK'', InsertScore 1 ''RandomForest'' double_0_91] \<and>
   fst (run [SetPeptide 1 ''ACDEFGHIK'', InsertScore 1 ''RandomForest'' double_0_91]
        (example_objects(2 := example_objects 1))) 2 = example_objects 1"
proof -
  let ?s1 = "example_objects(2 := example_objects 1)"
  let ?xs = "[SetProtein 2 ''Q99999'', InsertScore 2 ''MethodA'' double_0_75]"
  let ?ys = "[SetPeptide 1 ''ACDEFGHIK'', InsertScore 1 ''RandomForest'' double_0_91]"
  have c: "step example_objects (Copy 2 1) ?s1 Done" by (rule step_copy)
  have d: "(2 :: object) \<noteq> 1" by simp
  have x: "steps ?s1 ?xs (fst (run ?xs ?s1)) [Done, Done]" by (simp add: steps_run)
  have y: "steps ?s1 ?ys (fst (run ?ys ?s1)) [Done, Done]" by (simp add: steps_run)
  have ox: "only_on 2 ?xs" by (simp add: only_on_def)
  have oy: "only_on 1 ?ys" by (simp add: only_on_def)
  have b: "protein (example_objects 1) = ''P12345'' \<and>
      results (example_objects 1) = [(''MethodA'', double_0_5)]"
    by (simp add: example_objects_def insert_score_def set_protein_def ProteotypicResult_def
        map_empty_def)
  from copy_is_independent [OF c d x] ox
  have "fst (run ?xs ?s1) 1 = example_objects 1 \<and> protein (?s1 2) = protein (example_objects 1) \<and>
      results (?s1 2) = results (example_objects 1)"
    by blast
  moreover from copy_is_independent [OF c d y] oy
  have "fst (run ?ys ?s1) 2 = example_objects 1" by blast
  ultimately show ?thesis using c d x y ox oy b by (simp del: fun_upd_apply)
qed

text \<open>
  Claim C10. Running the same sequence of operations twice from the same state gives the
  same final state and the same outcomes, lookup results included: the relation \<open>steps\<close>
  relates a state and a sequence to at most one result (and to one, by \<open>steps_total\<close>).
\<close>

theorem operations_deterministic:
  assumes "steps s xs s1 outs1" and "steps s xs s2 outs2"
  shows "s1 = s2 \<and> outs1 = outs2"
  using assms by (rule steps_deterministic)

theorem operations_deterministic_witness:
  "steps example_objects
     [InsertScore 0 ''MethodA'' double_0_75, LookupScore 0 ''MethodA'', LookupScore 0 ''Unscored'',
      LookupScore 1 ''MethodA'']
     (example_objects(0 := insert_score ''MethodA'' double_0_75 (example_objects 0)))
     [Done, Found double_0_75, NotFound, Found double_0_5] \<and>
   steps example_objects
     [InsertScore 0 ''MethodA'' double_0_75, LookupScore 0 ''MethodA'', LookupScore 0 ''Unscored'',
      LookupScore 1 ''MethodA'']
     (fst (run [InsertScore 0 ''MethodA'' double_0_75, LookupScore 0 ''MethodA'',
        LookupScore 0 ''Unscored'', LookupScore 1 ''MethodA''] example_objects))
     (snd (run [InsertScore 0 ''MethodA'' double_0_75, LookupScore 0 ''MethodA'',
        LookupScore 0 ''Unscored'', LookupScore 1 ''MethodA''] example_objects)) \<and>
   fst (run [InsertScore 0 ''MethodA'' double_0_75, LookupScore 0 ''MethodA'',
        LookupScore 0 ''Unscored'', LookupScore 1 ''MethodA''] example_objects)
     = example_objects(0 := insert_score ''MethodA'' double_0_75 (example_objects 0)) \<and>
   snd (run [InsertScore 0 ''MethodA'' double_0_75, LookupScore 0 ''MethodA'',
        LookupScore 0 ''Unscored'', LookupScore 1 ''MethodA''] example_objects)
     = [Done, Found double_0_75, NotFound, Found double_0_5]"
proof -
  let ?xs = "[InsertScore 0 ''MethodA'' double_0_75, LookupScore 0 ''MethodA'',
    LookupScore 0 ''Unscored'', LookupScore 1 ''MethodA'']"
  let ?s' = "example_objects(0 := insert_score ''MethodA'' double_0_75 (example_objects 0))"
  have l1: "lookup_score ''MethodA'' (?s' 0) = Some double_0_75"
    by (simp add: lookup_score_def insert_score_def example_objects_def fresh_objects_def
        ProteotypicResult_def map_empty_def)
  have l2: "lookup_score ''Unscored'' (?s' 0) = None"
    by (simp add: lookup_score_def insert_score_def example_objects_def fresh_objects_def
        ProteotypicResult_def map_empty_def)
  have l3: "lookup_score ''MethodA'' (?s' 1) = Some double_0_5"
    by (simp add: lookup_score_def insert_score_def set_protein_def example_objects_def
        fresh_objects_def ProteotypicResult_def map_empty_def)
  have a: "steps example_objects ?xs ?s' [Done, Found double_0_75, NotFound, Found double_0_5]"
  proof -
    have s1: "step example_objects (InsertScore 0 ''MethodA'' double_0_75) ?s' Done"
      by (rule step_insert)
    from l1 have s2: "step ?s' (LookupScore 0 ''MethodA'') ?s' (Found double_0_75)"
      by (rule step_found)
    from l2 have s3: "step ?s' (LookupScore 0 ''Unscored'') ?s' NotFound"
      by (rule step_missing)
    from l3 have s4: "step ?s' (LookupScore 1 ''MethodA'') ?s' (Found double_0_5)"
      by (rule step_found)
    show ?thesis
      by (rule steps_cons [OF s1 steps_cons [OF s2 steps_cons [OF s3 steps_cons [OF s4 steps_nil]]]])
  qed
  have b: "steps example_objects ?xs (fst (run ?xs example_objects)) (snd (run ?xs example_objects))"
    by (simp add: steps_run)
  from operations_deterministic [OF b a] a b show ?thesis by simp
qed

end
